theory Spec2Isabelle
  imports Main "HOL-Library.Multiset" "HOL-Library.Char_ord" "HOL-Library.List_Lexorder"
begin

section \<open>The attendance tracker: data model\<close>

text \<open>
  The program keeps two SQLite tables (\<^verbatim>\<open>database.py\<close>, \<^verbatim>\<open>init_db\<close>) and reaches them
  through four data-access functions and three Flask handlers (\<^verbatim>\<open>app.py\<close>).

  A table is the list of its rows in rowid order, or \<open>None\<close> while the table has not been
  created. Text values are strings of bytes (the UTF-8 encoding SQLite stores), compared
  byte by byte as SQLite's default BINARY collation does. Row identifiers produced by
  \<^verbatim>\<open>AUTOINCREMENT\<close> are natural numbers; the \<^verbatim>\<open>participant_id\<close> column is written
  from a Python integer chosen by the caller, so it is an \<open>int\<close>.

  What the model takes from the database engine rather than from the program text:
  \<^item> a statement that violates a constraint changes nothing, and the Python functions
    never commit after an exception, so a failed call leaves the store as it was;
  \<^item> foreign keys are not enforced (SQLite's default, which the program does not change);
  \<^item> a table scan without an index visits rows in rowid order;
  \<^item> failures of the environment (disk, locking, exhaustion of the 63-bit rowid space)
    are not modelled.
\<close>

record participant =
  p_id :: nat
  p_name :: string
  p_email :: "string option"

record attendance_record =
  ar_id :: nat
  ar_participant_id :: int
  ar_session_date :: string
  ar_status :: string

text \<open>
  The store: both tables, each with its \<^verbatim>\<open>sqlite_sequence\<close> counter, the largest rowid
  that \<^verbatim>\<open>AUTOINCREMENT\<close> has handed out for the table.
\<close>

record db =
  participants :: "participant list option"
  participants_seq :: nat
  attendance_records :: "attendance_record list option"
  attendance_records_seq :: nat

text \<open>The database file before anything was created in it.\<close>

definition empty_db :: db where
  "empty_db = \<lparr>participants = None, participants_seq = 0,
               attendance_records = None, attendance_records_seq = 0\<rparr>"

text \<open>The rows of a table, none while the table does not exist.\<close>

definition participant_rows :: "db \<Rightarrow> participant list" where
  "participant_rows s = (case participants s of None \<Rightarrow> [] | Some ps \<Rightarrow> ps)"

definition attendance_rows :: "db \<Rightarrow> attendance_record list" where
  "attendance_rows s = (case attendance_records s of None \<Rightarrow> [] | Some ars \<Rightarrow> ars)"

subsection \<open>Engine rules used by the statements\<close>

text \<open>
  \<^verbatim>\<open>INTEGER PRIMARY KEY AUTOINCREMENT\<close>: the new rowid is one more than the largest of
  the table's counter and the rowids present.
\<close>

definition next_rowid :: "nat \<Rightarrow> nat list \<Rightarrow> nat" where
  "next_rowid sq ids = Suc (fold max ids sq)"

text \<open>\<^verbatim>\<open>CHECK(status IN ('Present', 'Absent'))\<close>\<close>

definition status_check :: "string \<Rightarrow> bool" where
  "status_check st \<longleftrightarrow> st = ''Present'' \<or> st = ''Absent''"

text \<open>
  Python's \<^verbatim>\<open>sqlite3\<close> binds an integer parameter only when it fits SQLite's signed
  64-bit INTEGER; otherwise \<^verbatim>\<open>execute\<close> raises OverflowError.
\<close>

definition sqlite_int_ok :: "int \<Rightarrow> bool" where
  "sqlite_int_ok n \<longleftrightarrow> - (2 ^ 63) \<le> n \<and> n < 2 ^ 63"

section \<open>Store: \<^verbatim>\<open>init_db\<close>\<close>

text \<open>
  Two \<^verbatim>\<open>CREATE TABLE IF NOT EXISTS\<close> statements: a missing table is created empty, an
  existing one is left alone.
\<close>

definition init_db :: "db \<Rightarrow> db" where
  "init_db s =
     (let s1 = (case participants s of
                  None \<Rightarrow> s\<lparr>participants := Some [], participants_seq := 0\<rparr>
                | Some _ \<Rightarrow> s)
      in (case attendance_records s1 of
            None \<Rightarrow> s1\<lparr>attendance_records := Some [], attendance_records_seq := 0\<rparr>
          | Some _ \<Rightarrow> s1))"

section \<open>Participant repository\<close>

text \<open>
  \<^verbatim>\<open>add_participant(name, email=None)\<close>. The result is the store afterwards and the
  returned value, \<open>None\<close> for Python's \<^verbatim>\<open>None\<close>. A missing table raises
  OperationalError and a name already present violates \<^verbatim>\<open>UNIQUE\<close> (IntegrityError);
  both handlers return \<^verbatim>\<open>None\<close> without a commit.
\<close>

definition add_participant :: "string \<Rightarrow> string option \<Rightarrow> db \<Rightarrow> db \<times> nat option" where
  "add_participant nm em s =
     (case participants s of
        None \<Rightarrow> (s, None)
      | Some ps \<Rightarrow>
          if nm \<in> set (map p_name ps) then (s, None)
          else
            let participant_id = next_rowid (participants_seq s) (map p_id ps)
            in (s\<lparr>participants :=
                     Some (ps @ [\<lparr>p_id = participant_id, p_name = nm, p_email = em\<rparr>]),
                   participants_seq := participant_id\<rparr>,
                Some participant_id))"

text \<open>
  \<^verbatim>\<open>get_all_participants()\<close>: \<^verbatim>\<open>SELECT id, name, email FROM participants ORDER BY name\<close>,
  and the empty list when the query raises.
\<close>

definition get_all_participants :: "db \<Rightarrow> participant list" where
  "get_all_participants s =
     (case participants s of
        None \<Rightarrow> []
      | Some ps \<Rightarrow> sort_key p_name ps)"

section \<open>Attendance repository\<close>

text \<open>
  \<^verbatim>\<open>record_attendance(participant_id, session_date, status)\<close>: the lookup
  (\<^verbatim>\<open>fetchone\<close> gives the first matching row), then an \<^verbatim>\<open>UPDATE ... WHERE id = ?\<close> of
  the row found or an \<^verbatim>\<open>INSERT\<close>. Every exception makes the function return
  \<^verbatim>\<open>False\<close> before \<^verbatim>\<open>commit\<close>.
\<close>

definition record_attendance :: "int \<Rightarrow> string \<Rightarrow> string \<Rightarrow> db \<Rightarrow> db \<times> bool" where
  "record_attendance pid d st s =
     (if \<not> sqlite_int_ok pid then (s, False)
      else
        case attendance_records s of
          None \<Rightarrow> (s, False)
        | Some ars \<Rightarrow>
            (case find (\<lambda>r. ar_participant_id r = pid \<and> ar_session_date r = d) ars of
               Some rec \<Rightarrow>
                 if status_check st
                 then (s\<lparr>attendance_records :=
                           Some (map (\<lambda>r. if ar_id r = ar_id rec then r\<lparr>ar_status := st\<rparr> else r)
                                   ars)\<rparr>,
                       True)
                 else (s, False)
             | None \<Rightarrow>
                 if status_check st
                 then
                   let new_id = next_rowid (attendance_records_seq s) (map ar_id ars)
                   in (s\<lparr>attendance_records :=
                            Some (ars @ [\<lparr>ar_id = new_id, ar_participant_id = pid,
                                          ar_session_date = d, ar_status = st\<rparr>]),
                          attendance_records_seq := new_id\<rparr>,
                       True)
                 else (s, False)))"

text \<open>One row of the join, with the column names of the query.\<close>

record attendance_row =
  participant_name :: string
  status :: string
  session_date :: string

text \<open>
  \<^verbatim>\<open>get_attendance_for_session(session_date)\<close>: the inner join of the attendance
  records of the date with the participants on \<^verbatim>\<open>ar.participant_id = p.id\<close>, ordered
  by participant name; the empty list when the query raises (a table is missing).
\<close>

definition join_row :: "attendance_record \<Rightarrow> participant \<Rightarrow> attendance_row" where
  "join_row ar p =
     \<lparr>participant_name = p_name p, status = ar_status ar, session_date = ar_session_date ar\<rparr>"

definition get_attendance_for_session :: "string \<Rightarrow> db \<Rightarrow> attendance_row list" where
  "get_attendance_for_session d s =
     (case attendance_records s of
        None \<Rightarrow> []
      | Some ars \<Rightarrow>
          (case participants s of
             None \<Rightarrow> []
           | Some ps \<Rightarrow>
               sort_key participant_name
                 (concat (map (\<lambda>ar. map (join_row ar)
                                      (filter (\<lambda>p. ar_participant_id ar = int (p_id p)) ps))
                            (filter (\<lambda>ar. ar_session_date ar = d) ars)))))"

section \<open>Session flow controller\<close>

text \<open>
  A request carries its method, the submitted form and the query string. Form and query
  string are lists of fields in the order sent; a name may occur more than once. The
  session state is the value stored under \<^verbatim>\<open>session['session_date']\<close>, if any.
\<close>

datatype http_method = GET | POST

record request =
  req_method :: http_method
  req_form :: "(string \<times> string) list"
  req_args :: "(string \<times> string) list"

record app_state =
  st_db :: db
  st_session :: "string option"

text \<open>The targets of \<^verbatim>\<open>url_for\<close> and the templates with the values handed to them.\<close>

datatype url = Setup_page | Mark_attendance_page | View_attendance_page string

datatype response =
    Redirect url
  | Render_setup "participant list" "string option"
  | Render_mark_attendance "participant list" string
  | Render_view_attendance "attendance_row list" "string option"

text \<open>\<^verbatim>\<open>request.form.get(k)\<close>, \<^verbatim>\<open>request.args.get(k)\<close>: the first value sent for the name.\<close>

definition form_get :: "string \<Rightarrow> (string \<times> string) list \<Rightarrow> string option" where
  "form_get k f = map_of f k"

text \<open>\<^verbatim>\<open>request.form.items()\<close>: every name once, with its first value, in order of first occurrence.\<close>

fun form_items :: "(string \<times> string) list \<Rightarrow> (string \<times> string) list" where
  "form_items [] = []"
| "form_items ((k, v) # f) = (k, v) # form_items (filter (\<lambda>kv. fst kv \<noteq> k) f)"

text \<open>Python's truth value of an optional string: \<^verbatim>\<open>None\<close> and \<^verbatim>\<open>''\<close> are false.\<close>

definition truthy :: "string option \<Rightarrow> bool" where
  "truthy v = (case v of None \<Rightarrow> False | Some x \<Rightarrow> x \<noteq> [])"

text \<open>\<^verbatim>\<open>str.startswith\<close> and \<^verbatim>\<open>str.split\<close> on a one-character separator.\<close>

definition startswith :: "string \<Rightarrow> string \<Rightarrow> bool" where
  "startswith x pre \<longleftrightarrow> take (length pre) x = pre"

fun split_char :: "char \<Rightarrow> string \<Rightarrow> string list" where
  "split_char c [] = [[]]"
| "split_char c (x # xs) =
     (if x = c then [] # split_char c xs
      else (case split_char c xs of
              w # ws \<Rightarrow> (x # w) # ws
            | [] \<Rightarrow> [[x]]))"

text \<open>
  \<^verbatim>\<open>setup_page\<close>, the handler of \<^verbatim>\<open>/\<close>. A handler maps the request and the state
  (store and session) to the response and the state afterwards.
\<close>

definition setup_page :: "request \<Rightarrow> app_state \<Rightarrow> response \<times> app_state" where
  "setup_page req st =
     (if req_method req = POST then
        let action = form_get ''action'' (req_form req);
            session_date_form = form_get ''session_date'' (req_form req);
            st1 = (if truthy session_date_form then st\<lparr>st_session := session_date_form\<rparr>
                   else st)
        in if action = Some ''add_participant'' then
             (case form_get ''participant_name'' (req_form req) of
                None \<Rightarrow> (Redirect Setup_page, st1)
              | Some nm \<Rightarrow>
                  if nm \<noteq> []
                  then (Redirect Setup_page,
                        st1\<lparr>st_db := fst (add_participant nm None (st_db st1))\<rparr>)
                  else (Redirect Setup_page, st1))
           else if action = Some ''proceed_to_attendance'' then
             (if truthy (st_session st1) then (Redirect Mark_attendance_page, st1)
              else (Redirect Setup_page, st1))
           else (Render_setup (get_all_participants (st_db st1)) (st_session st1), st1)
      else (Render_setup (get_all_participants (st_db st)) (st_session st), st))"

text \<open>
  One turn of the loop over the submitted fields in \<^verbatim>\<open>mark_attendance_page\<close>. The
  parameter \<open>to_int\<close> stands for Python's built-in \<^verbatim>\<open>int\<close> on strings, \<open>None\<close> where
  it raises ValueError: such a field is skipped. The second piece of the split exists
  for every key that starts with \<^verbatim>\<open>status_\<close> (lemma \<open>split_char_status\<close> below), so the
  last branch is never taken.
\<close>

definition mark_field ::
  "(string \<Rightarrow> int option) \<Rightarrow> string \<Rightarrow> string \<times> string \<Rightarrow> db \<Rightarrow> db" where
  "mark_field to_int d kv s =
     (case kv of (key, val) \<Rightarrow>
        if startswith key ''status_'' then
          (case split_char CHR ''_'' key of
             _ # participant_id # _ \<Rightarrow>
               (case to_int participant_id of
                  None \<Rightarrow> s
                | Some p_id_int \<Rightarrow> fst (record_attendance p_id_int d val s))
           | _ \<Rightarrow> s)
        else s)"

text \<open>\<^verbatim>\<open>mark_attendance_page\<close>, the handler of \<^verbatim>\<open>/attendance\<close>.\<close>

definition mark_attendance_page ::
  "(string \<Rightarrow> int option) \<Rightarrow> request \<Rightarrow> app_state \<Rightarrow> response \<times> app_state" where
  "mark_attendance_page to_int req st =
     (case st_session st of
        None \<Rightarrow> (Redirect Setup_page, st)
      | Some sd \<Rightarrow>
          if sd = [] then (Redirect Setup_page, st)
          else if req_method req = POST then
            (case form_get ''session_date'' (req_form req) of
               None \<Rightarrow> (Redirect Setup_page, st)
             | Some d \<Rightarrow>
                 if d = [] then (Redirect Setup_page, st)
                 else (Redirect (View_attendance_page d),
                       st\<lparr>st_db := fold (mark_field to_int d) (form_items (req_form req))
                                      (st_db st)\<rparr>))
          else
            let ps = get_all_participants (st_db st)
            in if ps = [] then (Redirect Setup_page, st)
               else (Render_mark_attendance ps sd, st))"

text \<open>\<^verbatim>\<open>view_attendance_page\<close>, the handler of \<^verbatim>\<open>/view\<close>.\<close>

definition view_attendance_page :: "request \<Rightarrow> app_state \<Rightarrow> response \<times> app_state" where
  "view_attendance_page req st =
     (let session_date_to_view = form_get ''session_date_view'' (req_args req);
          recs =
            (if truthy session_date_to_view
             then (case session_date_to_view of
                     None \<Rightarrow> []
                   | Some d \<Rightarrow> get_attendance_for_session d (st_db st))
             else [])
      in (Render_view_attendance recs session_date_to_view, st))"

section \<open>Sequences of repository calls\<close>

text \<open>The calls a client of the repositories can make, and their effect on the store.\<close>

datatype repo_op =
    Init_db
  | Add_participant string "string option"
  | Get_all_participants
  | Record_attendance int string string
  | Get_attendance_for_session string

fun exec_op :: "repo_op \<Rightarrow> db \<Rightarrow> db" where
  "exec_op Init_db s = init_db s"
| "exec_op (Add_participant nm em) s = fst (add_participant nm em s)"
| "exec_op Get_all_participants s = s"
| "exec_op (Record_attendance pid d st) s = fst (record_attendance pid d st s)"
| "exec_op (Get_attendance_for_session d) s = s"

definition run_ops :: "repo_op list \<Rightarrow> db \<Rightarrow> db" where
  "run_ops ops s = fold exec_op ops s"

text \<open>Adding a list of participants one after the other, keeping what each call returned.\<close>

fun add_all :: "(string \<times> string option) list \<Rightarrow> db \<Rightarrow> db \<times> nat option list" where
  "add_all [] s = (s, [])"
| "add_all ((nm, em) # rest) s =
     (case add_participant nm em s of
        (s1, r) \<Rightarrow> (case add_all rest s1 of (s2, rs) \<Rightarrow> (s2, r # rs)))"

text \<open>The attendance records of a participant on a date.\<close>

definition records_for :: "int \<Rightarrow> string \<Rightarrow> db \<Rightarrow> attendance_record list" where
  "records_for pid d s =
     filter (\<lambda>r. ar_participant_id r = pid \<and> ar_session_date r = d) (attendance_rows s)"

text \<open>What the lookup of \<^verbatim>\<open>record_attendance\<close> compares: participant and date of a record.\<close>

definition pair_key :: "attendance_record \<Rightarrow> int \<times> string" where
  "pair_key r = (ar_participant_id r, ar_session_date r)"

text \<open>
  The report for a date in the words of the specification: the attendance records of the
  date whose participant exists, in table order, each with the name of its participant.
  It is the reference against which the join of \<^verbatim>\<open>get_attendance_for_session\<close> is
  compared.
\<close>

definition name_of :: "db \<Rightarrow> int \<Rightarrow> string option" where
  "name_of s pid = map_of (map (\<lambda>p. (int (p_id p), p_name p)) (participant_rows s)) pid"

definition for_session_spec :: "string \<Rightarrow> db \<Rightarrow> attendance_row list" where
  "for_session_spec d s =
     List.map_filter
       (\<lambda>r. if ar_session_date r = d
            then map_option
                   (\<lambda>n. \<lparr>participant_name = n, status = ar_status r,
                         session_date = ar_session_date r\<rparr>)
                   (name_of s (ar_participant_id r))
            else None)
       (attendance_rows s)"

text \<open>The participant row that a successful \<^verbatim>\<open>add_participant\<close> stores.\<close>

definition new_participant :: "nat \<Rightarrow> string \<times> string option \<Rightarrow> participant" where
  "new_participant i ne = \<lparr>p_id = i, p_name = fst ne, p_email = snd ne\<rparr>"

subsection \<open>Sample data\<close>

text \<open>
  A store with two participants and four attendance records, one of them for a
  participant that does not exist, and a reader of unsigned
  ASCII decimal numerals to put in place of \<open>to_int\<close>; on those numerals it gives what
  Python's \<^verbatim>\<open>int\<close> gives.
\<close>

definition sample_db :: db where
  "sample_db =
     \<lparr>participants = Some [\<lparr>p_id = 1, p_name = ''Bob'', p_email = None\<rparr>,
                           \<lparr>p_id = 2, p_name = ''Alice'', p_email = Some ''a@example.com''\<rparr>],
      participants_seq = 2,
      attendance_records =
        Some [\<lparr>ar_id = 1, ar_participant_id = 1,
               ar_session_date = ''2024-01-03'', ar_status = ''Present''\<rparr>,
              \<lparr>ar_id = 2, ar_participant_id = 2,
               ar_session_date = ''2024-01-03'', ar_status = ''Absent''\<rparr>,
              \<lparr>ar_id = 3, ar_participant_id = 7,
               ar_session_date = ''2024-01-03'', ar_status = ''Present''\<rparr>,
              \<lparr>ar_id = 4, ar_participant_id = 2,
               ar_session_date = ''2024-01-04'', ar_status = ''Present''\<rparr>],
      attendance_records_seq = 4\<rparr>"

text \<open>
  A submission of the marking form: a date that differs from the one the sample session
  holds, two status fields and one whose identifier is not a number.
\<close>

definition sample_post :: request where
  "sample_post =
     \<lparr>req_method = POST,
      req_form = [(''session_date'', ''2024-02-02''), (''status_1'', ''Present''),
                  (''status_2'', ''Absent''), (''status_x'', ''Absent'')],
      req_args = []\<rparr>"

definition decimal :: "string \<Rightarrow> int option" where
  "decimal x =
     (if x \<noteq> [] \<and> list_all (\<lambda>c. CHR ''0'' \<le> c \<and> c \<le> CHR ''9'') x
      then Some (foldl (\<lambda>a c. 10 * a + (of_char c - 48)) 0 x)
      else None)"

section \<open>Properties of the store\<close>

text \<open>
  Claim C7. \<^verbatim>\<open>init_db\<close> is idempotent: running it twice from any store gives what
  running it once gives, and on a store where both tables exist it changes nothing,
  neither the tables nor a single participant or attendance row. (A table of the model
  is a table with the columns and constraints of \<^verbatim>\<open>init_db\<close>, the only statement of the
  program that creates one, so an unchanged store has an unchanged schema.)
\<close>

theorem init_db_idempotent:
  "init_db (init_db s) = init_db s \<and>
   (participants s \<noteq> None \<and> attendance_records s \<noteq> None \<longrightarrow> init_db s = s)"
  by (auto simp add: init_db_def Let_def split: option.splits)

theorem init_db_idempotent_witness:
  "participants sample_db \<noteq> None \<and> attendance_records sample_db \<noteq> None \<and>
   init_db sample_db = sample_db \<and> init_db (init_db sample_db) = init_db sample_db"
  using init_db_idempotent [of sample_db] by (simp add: sample_db_def)

section \<open>Properties of the participant repository\<close>

text \<open>
  Claim C2. On a store with a participant table: adding a name that is not in the table
  returns an identifier greater than zero, and the table gains that one row; adding a
  name that is in the table returns \<^verbatim>\<open>None\<close> and leaves the store, so also the
  number of participants, as it was.
\<close>

theorem add_participant_result:
  assumes "participants s = Some ps"
  shows "(nm \<notin> set (map p_name ps) \<longrightarrow>
            (\<exists>i. 0 < i \<and> snd (add_participant nm em s) = Some i \<and>
                 participants (fst (add_participant nm em s)) =
                   Some (ps @ [\<lparr>p_id = i, p_name = nm, p_email = em\<rparr>]))) \<and>
         (nm \<in> set (map p_name ps) \<longrightarrow> add_participant nm em s = (s, None))"
  using assms by (simp add: add_participant_def Let_def next_rowid_def)

theorem add_participant_result_witness:
  "participants sample_db =
     Some [\<lparr>p_id = 1, p_name = ''Bob'', p_email = None\<rparr>,
           \<lparr>p_id = 2, p_name = ''Alice'', p_email = Some ''a@example.com''\<rparr>] \<and>
   snd (add_participant ''Carol'' None sample_db) = Some 3 \<and>
   add_participant ''Bob'' None sample_db = (sample_db, None)"
proof -
  have h: "participants sample_db =
     Some [\<lparr>p_id = 1, p_name = ''Bob'', p_email = None\<rparr>,
           \<lparr>p_id = 2, p_name = ''Alice'', p_email = Some ''a@example.com''\<rparr>]"
    by (simp add: sample_db_def)
  have a: "snd (add_participant ''Carol'' None sample_db) = Some 3"
    by (simp add: add_participant_def sample_db_def next_rowid_def Let_def)
  show ?thesis
    using h a add_participant_result [OF h, of "''Bob''" None]
      add_participant_result [OF h, of "''Carol''" None]
    by simp
qed

section \<open>Properties of the attendance repository\<close>

text \<open>
  Claim C8. For every participant identifier, date and store, a status other than
  \<^verbatim>\<open>Present\<close> and \<^verbatim>\<open>Absent\<close> makes \<^verbatim>\<open>record_attendance\<close> return \<^verbatim>\<open>False\<close>
  and leave the store unchanged: no row is inserted and no status is modified.
\<close>

theorem record_attendance_rejects_status:
  "\<not> status_check st \<Longrightarrow> record_attendance pid d st s = (s, False)"
  by (simp add: record_attendance_def split: option.splits)

theorem record_attendance_rejects_status_witness:
  "\<not> status_check ''Late'' \<and>
   record_attendance 1 ''2024-01-03'' ''Late'' sample_db = (sample_db, False)"
  using record_attendance_rejects_status [of "''Late''" 1 "''2024-01-03''" sample_db]
  by (simp add: status_check_def)

section \<open>Properties of the session flow controller\<close>

text \<open>
  The participant list is empty exactly when the table has no row (or does not exist).
\<close>

lemma get_all_participants_Nil: "get_all_participants s = [] \<longleftrightarrow> participant_rows s = []"
proof (cases "participants s")
  case None
  then show ?thesis by (simp add: get_all_participants_def participant_rows_def)
next
  case (Some ps)
  have "sort_key p_name ps = [] \<longleftrightarrow> ps = []"
    using length_sort [of p_name ps] by (metis length_0_conv)
  with Some show ?thesis by (simp add: get_all_participants_def participant_rows_def)
qed

text \<open>
  Claim C5. A request to \<^verbatim>\<open>/attendance\<close> never reaches the marking form in a bad state.
  Whatever the method, a session without a date (none stored, or an empty one) gives a
  redirect to the setup page; a GET with no participant in the store gives a redirect to
  the setup page; and whenever the marking form is rendered, the session holds the
  non-empty date shown and the form lists the participants of a non-empty table. The
  guards leave store and session as they were.
\<close>

theorem mark_attendance_page_guards:
  "(\<not> truthy (st_session st) \<longrightarrow>
      mark_attendance_page to_int req st = (Redirect Setup_page, st)) \<and>
   (req_method req = GET \<and> participant_rows (st_db st) = [] \<longrightarrow>
      mark_attendance_page to_int req st = (Redirect Setup_page, st)) \<and>
   (\<forall>ps d. fst (mark_attendance_page to_int req st) = Render_mark_attendance ps d \<longrightarrow>
      st_session st = Some d \<and> d \<noteq> [] \<and> participant_rows (st_db st) \<noteq> [] \<and>
      ps = get_all_participants (st_db st))"
proof -
  have a: "mark_attendance_page to_int req st = (Redirect Setup_page, st)"
    if "\<not> truthy (st_session st)"
    using that by (simp add: mark_attendance_page_def truthy_def split: option.splits)
  have b: "mark_attendance_page to_int req st = (Redirect Setup_page, st)"
    if "req_method req = GET \<and> participant_rows (st_db st) = []"
  proof -
    from that have "req_method req \<noteq> POST" "get_all_participants (st_db st) = []"
      by (simp_all add: get_all_participants_Nil)
    then show ?thesis
      by (simp add: mark_attendance_page_def split: option.splits)
  qed
  have c: "st_session st = Some d \<and> d \<noteq> [] \<and> participant_rows (st_db st) \<noteq> [] \<and>
      ps = get_all_participants (st_db st)"
    if "fst (mark_attendance_page to_int req st) = Render_mark_attendance ps d" for ps d
  proof -
    from that have "st_session st = Some d \<and> d \<noteq> [] \<and>
        get_all_participants (st_db st) \<noteq> [] \<and> ps = get_all_participants (st_db st)"
      by (auto simp add: mark_attendance_page_def Let_def split: option.splits if_splits)
    then show ?thesis by (simp add: get_all_participants_Nil)
  qed
  from a b c show ?thesis by blast
qed

text \<open>
  Claim C6. What \<^verbatim>\<open>/view\<close> shows depends, besides the store, on the query parameter
  \<^verbatim>\<open>session_date_view\<close> alone: two requests with the same value for it get the same
  response on the same store whatever the two session states and the rest of the requests
  are; without the parameter the records are the empty list; the handler changes neither
  store nor session.
\<close>

theorem view_attendance_page_query_only:
  "(form_get ''session_date_view'' (req_args r1) = form_get ''session_date_view'' (req_args r2) \<longrightarrow>
      fst (view_attendance_page r1 \<lparr>st_db = s, st_session = sess1\<rparr>) =
      fst (view_attendance_page r2 \<lparr>st_db = s, st_session = sess2\<rparr>)) \<and>
   (form_get ''session_date_view'' (req_args r1) = None \<longrightarrow>
      fst (view_attendance_page r1 \<lparr>st_db = s, st_session = sess1\<rparr>) = Render_view_attendance [] None) \<and>
   snd (view_attendance_page r1 st) = st"
  by (simp add: view_attendance_page_def Let_def truthy_def split: option.splits)

text \<open>
  Claim C10. A POST to \<^verbatim>\<open>/\<close> whose form has a non-empty \<^verbatim>\<open>session_date\<close> (the value
  \<^verbatim>\<open>request.form.get\<close> reads) leaves that value in the session, whatever the action is.
  It is stored before the action is looked at: with the action
  \<^verbatim>\<open>proceed_to_attendance\<close> the answer is the redirect to the marking page, which is
  given only when the session holds a date, also when the session held none before.
\<close>

theorem setup_page_stores_session_date:
  assumes "req_method req = POST"
    and "form_get ''session_date'' (req_form req) = Some d"
    and "d \<noteq> []"
  shows "st_session (snd (setup_page req st)) = Some d \<and>
         (form_get ''action'' (req_form req) = Some ''proceed_to_attendance'' \<longrightarrow>
            fst (setup_page req st) = Redirect Mark_attendance_page)"
  using assms by (simp add: setup_page_def Let_def truthy_def split: option.splits)


theorem mark_attendance_page_guards_witness:
  "\<not> truthy None \<and>
   mark_attendance_page decimal
     \<lparr>req_method = POST, req_form = [(''session_date'', ''2024-01-03''), (''status_1'', ''Absent'')],
      req_args = []\<rparr>
     \<lparr>st_db = sample_db, st_session = None\<rparr> =
   (Redirect Setup_page, \<lparr>st_db = sample_db, st_session = None\<rparr>) \<and>
   participant_rows (init_db empty_db) = [] \<and>
   mark_attendance_page decimal \<lparr>req_method = GET, req_form = [], req_args = []\<rparr>
     \<lparr>st_db = init_db empty_db, st_session = Some ''2024-01-03''\<rparr> =
   (Redirect Setup_page, \<lparr>st_db = init_db empty_db, st_session = Some ''2024-01-03''\<rparr>) \<and>
   fst (mark_attendance_page decimal \<lparr>req_method = GET, req_form = [], req_args = []\<rparr>
     \<lparr>st_db = sample_db, st_session = Some ''2024-01-03''\<rparr>) =
   Render_mark_attendance (get_all_participants sample_db) ''2024-01-03'' \<and>
   participant_rows sample_db \<noteq> []"
proof -
  have r: "fst (mark_attendance_page decimal \<lparr>req_method = GET, req_form = [], req_args = []\<rparr>
     \<lparr>st_db = sample_db, st_session = Some ''2024-01-03''\<rparr>) =
   Render_mark_attendance (get_all_participants sample_db) ''2024-01-03''"
    by (simp add: mark_attendance_page_def get_all_participants_def sample_db_def)
  show ?thesis
    using r
      mark_attendance_page_guards [of "\<lparr>st_db = sample_db, st_session = None\<rparr>" decimal
        "\<lparr>req_method = POST,
          req_form = [(''session_date'', ''2024-01-03''), (''status_1'', ''Absent'')],
          req_args = []\<rparr>"]
      mark_attendance_page_guards [of
        "\<lparr>st_db = init_db empty_db, st_session = Some ''2024-01-03''\<rparr>" decimal
        "\<lparr>req_method = GET, req_form = [], req_args = []\<rparr>"]
      mark_attendance_page_guards [of
        "\<lparr>st_db = sample_db, st_session = Some ''2024-01-03''\<rparr>" decimal
        "\<lparr>req_method = GET, req_form = [], req_args = []\<rparr>"]
    by (simp add: truthy_def participant_rows_def init_db_def empty_db_def)
qed

theorem view_attendance_page_query_only_witness:
  "form_get ''session_date_view'' [(''session_date_view'', ''2024-01-03'')] =
   form_get ''session_date_view'' [(''session_date_view'', ''2024-01-03''), (''x'', ''y'')] \<and>
   fst (view_attendance_page
          \<lparr>req_method = GET, req_form = [], req_args = [(''session_date_view'', ''2024-01-03'')]\<rparr>
          \<lparr>st_db = sample_db, st_session = None\<rparr>) =
   fst (view_attendance_page
          \<lparr>req_method = GET, req_form = [],
           req_args = [(''session_date_view'', ''2024-01-03''), (''x'', ''y'')]\<rparr>
          \<lparr>st_db = sample_db, st_session = Some ''2023-12-31''\<rparr>) \<and>
   form_get ''session_date_view'' [] = None \<and>
   fst (view_attendance_page \<lparr>req_method = GET, req_form = [], req_args = []\<rparr>
          \<lparr>st_db = sample_db, st_session = Some ''2024-01-03''\<rparr>) =
   Render_view_attendance [] None"
  using view_attendance_page_query_only [where
      ?r1.0 = "\<lparr>req_method = GET, req_form = [],
               req_args = [(''session_date_view'', ''2024-01-03'')]\<rparr>"
      and ?r2.0 = "\<lparr>req_method = GET, req_form = [],
               req_args = [(''session_date_view'', ''2024-01-03''), (''x'', ''y'')]\<rparr>"
      and s = sample_db and ?sess1.0 = None and ?sess2.0 = "Some ''2023-12-31''"
      and st = "\<lparr>st_db = sample_db, st_session = None\<rparr>"]
    view_attendance_page_query_only [where
      ?r1.0 = "\<lparr>req_method = GET, req_form = [], req_args = []\<rparr>"
      and ?r2.0 = "\<lparr>req_method = GET, req_form = [], req_args = []\<rparr>"
      and s = sample_db and ?sess1.0 = "Some ''2024-01-03''"
      and ?sess2.0 = "Some ''2024-01-03''"
      and st = "\<lparr>st_db = sample_db, st_session = None\<rparr>"]
  by (simp add: form_get_def)

theorem setup_page_stores_session_date_witness:
  "form_get ''session_date''
     [(''action'', ''proceed_to_attendance''), (''session_date'', ''2024-03-01'')] =
   Some ''2024-03-01'' \<and>
   setup_page
     \<lparr>req_method = POST,
      req_form = [(''action'', ''proceed_to_attendance''), (''session_date'', ''2024-03-01'')],
      req_args = []\<rparr>
     \<lparr>st_db = sample_db, st_session = None\<rparr> =
   (Redirect Mark_attendance_page, \<lparr>st_db = sample_db, st_session = Some ''2024-03-01''\<rparr>)"
proof -
  have h: "form_get ''session_date''
     (req_form \<lparr>req_method = POST,
      req_form = [(''action'', ''proceed_to_attendance''), (''session_date'', ''2024-03-01'')],
      req_args = []\<rparr>) = Some ''2024-03-01''"
    by (simp add: form_get_def)
  have e: "snd (setup_page
     \<lparr>req_method = POST,
      req_form = [(''action'', ''proceed_to_attendance''), (''session_date'', ''2024-03-01'')],
      req_args = []\<rparr>
     \<lparr>st_db = sample_db, st_session = None\<rparr>) =
     \<lparr>st_db = sample_db, st_session = Some ''2024-03-01''\<rparr>"
    by (simp add: setup_page_def form_get_def truthy_def Let_def)
  show ?thesis
    using e h setup_page_stores_session_date [OF _ h, of "\<lparr>st_db = sample_db, st_session = None\<rparr>"]
    by (simp add: form_get_def prod_eq_iff)
qed

section \<open>Invariants of the attendance table\<close>

text \<open>
  Helper facts: what \<^verbatim>\<open>fetchone\<close> finds, and the rows with a given key in a table whose
  keys are pairwise different.
\<close>

lemma find_None_filter: "find P xs = None \<Longrightarrow> filter P xs = []"
  by (induction xs) (auto split: if_splits)

lemma find_Some_mem: "find P xs = Some x \<Longrightarrow> x \<in> set xs \<and> P x"
  by (induction xs) (auto split: if_splits)

lemma distinct_key_filter:
  "distinct (map f xs) \<Longrightarrow> x \<in> set xs \<Longrightarrow> filter (\<lambda>y. f y = f x) xs = [x]"
proof (induction xs)
  case Nil
  then show ?case by simp
next
  case (Cons a xs)
  show ?case
  proof (cases "a = x")
    case True
    with Cons.prems have "f x \<notin> f ` set xs" by simp
    then have "\<forall>y\<in>set xs. f y \<noteq> f x" by (metis imageI)
    then have "filter (\<lambda>y. f y = f x) xs = []" by (simp add: filter_empty_conv)
    with True show ?thesis by simp
  next
    case False
    with Cons.prems have "x \<in> set xs" "f a \<noteq> f x" by auto
    with Cons show ?thesis by simp
  qed
qed

lemma record_attendance_keys:
  assumes "distinct (map pair_key (attendance_rows s))"
  shows "distinct (map pair_key (attendance_rows (fst (record_attendance pid d st s))))"
proof (cases "attendance_records s")
  case None
  then show ?thesis using assms by (simp add: record_attendance_def)
next
  case (Some ars)
  let ?P = "\<lambda>r. ar_participant_id r = pid \<and> ar_session_date r = d"
  show ?thesis
  proof (cases "find ?P ars")
    case None
    then have "filter ?P ars = []" by (rule find_None_filter)
    then have "(pid, d) \<notin> set (map pair_key ars)"
      by (auto simp add: filter_empty_conv pair_key_def)
    with None Some assms show ?thesis
      by (simp add: record_attendance_def attendance_rows_def Let_def pair_key_def)
  next
    case (Some rec)
    have "pair_key \<circ> (\<lambda>r. if ar_id r = ar_id rec then r\<lparr>ar_status := st\<rparr> else r) = pair_key"
      by (auto simp add: pair_key_def fun_eq_iff)
    with Some \<open>attendance_records s = Some ars\<close> assms show ?thesis
      by (simp add: record_attendance_def attendance_rows_def)
  qed
qed

lemma add_participant_attendance:
  "attendance_records (fst (add_participant nm em s)) = attendance_records s"
  by (simp add: add_participant_def Let_def split: option.splits)

lemma add_participant_attendance_rows:
  "attendance_rows (fst (add_participant nm em s)) = attendance_rows s"
  by (simp add: attendance_rows_def add_participant_attendance)

lemma init_db_attendance_rows: "attendance_rows (init_db s) = attendance_rows s"
  by (simp add: init_db_def attendance_rows_def Let_def split: option.splits)

lemma exec_op_keys:
  "distinct (map pair_key (attendance_rows s)) \<Longrightarrow>
   distinct (map pair_key (attendance_rows (exec_op opn s)))"
  by (cases opn)
     (simp_all add: record_attendance_keys init_db_attendance_rows
        add_participant_attendance_rows)

lemma run_ops_keys:
  "distinct (map pair_key (attendance_rows s)) \<Longrightarrow>
   distinct (map pair_key (attendance_rows (run_ops ops s)))"
  unfolding run_ops_def by (induction ops arbitrary: s) (simp_all add: exec_op_keys)

lemma record_attendance_table:
  "attendance_records s \<noteq> None \<Longrightarrow> attendance_records (fst (record_attendance pid d st s)) \<noteq> None"
  by (auto simp add: record_attendance_def Let_def split: option.splits)

lemma exec_op_table:
  "attendance_records s \<noteq> None \<Longrightarrow> attendance_records (exec_op opn s) \<noteq> None"
  by (cases opn)
     (auto simp add: record_attendance_table add_participant_attendance init_db_def Let_def
        split: option.splits)

lemma run_ops_table:
  "attendance_records s \<noteq> None \<Longrightarrow> attendance_records (run_ops ops s) \<noteq> None"
  unfolding run_ops_def
proof (induction ops arbitrary: s)
  case Nil
  then show ?case by simp
next
  case (Cons a ops)
  from Cons.prems have "attendance_records (exec_op a s) \<noteq> None" by (rule exec_op_table)
  then have "attendance_records (fold exec_op ops (exec_op a s)) \<noteq> None" by (rule Cons.IH)
  then show ?case by simp
qed

lemma record_attendance_last_write:
  assumes inv: "distinct (map pair_key (attendance_rows s))"
    and tbl: "attendance_records s \<noteq> None"
    and ok: "sqlite_int_ok pid" "status_check st"
  shows "\<exists>r. records_for pid d (fst (record_attendance pid d st s)) = [r] \<and> ar_status r = st"
proof -
  from tbl obtain ars where ars: "attendance_records s = Some ars" by auto
  let ?P = "\<lambda>r. ar_participant_id r = pid \<and> ar_session_date r = d"
  show ?thesis
  proof (cases "find ?P ars")
    case None
    then have "filter ?P ars = []" by (rule find_None_filter)
    with None ars ok show ?thesis
      by (simp add: record_attendance_def records_for_def attendance_rows_def Let_def)
  next
    case (Some rec)
    then have rec: "rec \<in> set ars" "?P rec" using find_Some_mem [of ?P ars rec] by auto
    let ?u = "\<lambda>r. if ar_id r = ar_id rec then r\<lparr>ar_status := st\<rparr> else r"
    have P: "?P = (\<lambda>y. pair_key y = pair_key rec)"
      using rec(2) by (auto simp add: pair_key_def fun_eq_iff)
    from inv ars have "distinct (map pair_key ars)" by (simp add: attendance_rows_def)
    then have "filter (\<lambda>y. pair_key y = pair_key rec) ars = [rec]"
      using rec(1) by (rule distinct_key_filter)
    with P have f: "filter ?P ars = [rec]" by simp
    have "filter ?P (map ?u ars) = map ?u (filter ?P ars)"
      by (induction ars) auto
    with f have "filter ?P (map ?u ars) = [rec\<lparr>ar_status := st\<rparr>]" by simp
    with Some ars ok show ?thesis
      by (simp add: record_attendance_def records_for_def attendance_rows_def)
  qed
qed

lemma init_empty_keys: "attendance_rows (init_db empty_db) = []"
  by (simp add: init_db_def empty_db_def attendance_rows_def)

lemma init_empty_table: "attendance_records (init_db empty_db) \<noteq> None"
  by (simp add: init_db_def empty_db_def)

text \<open>
  Claim C1. After any sequence of repository calls on an initialized empty store, no two
  attendance records have the same participant and date. On such a store, for a
  participant identifier that fits SQLite's 64-bit integer and a second status that is
  \<^verbatim>\<open>Present\<close> or \<^verbatim>\<open>Absent\<close>, \<^verbatim>\<open>record_attendance\<close> called with a status and
  then with the second status for the same participant and date leaves exactly one record
  for the pair, and its status is the second one. The first status may be anything: a
  refused first call leaves the second one to insert.
\<close>

theorem attendance_one_record_per_pair:
  "distinct (map (\<lambda>r. (ar_participant_id r, ar_session_date r))
      (attendance_rows (run_ops ops (init_db empty_db)))) \<and>
   (sqlite_int_ok pid \<and> status_check st' \<longrightarrow>
      (\<exists>r. records_for pid d
              (fst (record_attendance pid d st'
                 (fst (record_attendance pid d st (run_ops ops (init_db empty_db)))))) = [r] \<and>
           ar_status r = st'))"
proof -
  let ?s = "run_ops ops (init_db empty_db)"
  have inv: "distinct (map pair_key (attendance_rows ?s))"
    by (rule run_ops_keys) (simp add: init_empty_keys)
  have tbl: "attendance_records ?s \<noteq> None"
    by (rule run_ops_table) (rule init_empty_table)
  let ?s1 = "fst (record_attendance pid d st ?s)"
  have inv1: "distinct (map pair_key (attendance_rows ?s1))"
    using inv by (rule record_attendance_keys)
  have tbl1: "attendance_records ?s1 \<noteq> None"
    using tbl by (rule record_attendance_table)
  have "\<exists>r. records_for pid d (fst (record_attendance pid d st' ?s1)) = [r] \<and> ar_status r = st'"
    if "sqlite_int_ok pid \<and> status_check st'"
    using record_attendance_last_write [OF inv1 tbl1] that by blast
  moreover have "pair_key = (\<lambda>r. (ar_participant_id r, ar_session_date r))"
    by (simp add: pair_key_def fun_eq_iff)
  ultimately show ?thesis using inv by simp
qed

theorem attendance_one_record_per_pair_witness:
  "sqlite_int_ok 1 \<and> status_check ''Absent'' \<and>
   map ar_status
     (records_for 1 ''2024-01-03''
        (fst (record_attendance 1 ''2024-01-03'' ''Absent''
           (fst (record_attendance 1 ''2024-01-03'' ''Present''
              (run_ops [Add_participant ''Alice'' None] (init_db empty_db)))))))
   = [''Absent'']"
  using attendance_one_record_per_pair [of "[Add_participant ''Alice'' None]" 1 "''Absent''"
      "''2024-01-03''" "''Present''"]
  by (auto simp add: sqlite_int_ok_def status_check_def)

text \<open>
  Without the two conditions the last write does not win: a second call with the status
  \<^verbatim>\<open>Late\<close> is refused by the check constraint, and the record keeps the status of the
  first call; and for the identifier \<open>2 ^ 63\<close> both calls fail when the parameters are
  bound, so that no record exists afterwards.
\<close>

theorem last_write_wins_counterexample:
  "map ar_status
     (records_for 1 ''2024-01-03''
        (fst (record_attendance 1 ''2024-01-03'' ''Late''
           (fst (record_attendance 1 ''2024-01-03'' ''Present'' (init_db empty_db))))))
   = [''Present''] \<and>
   records_for 9223372036854775808 ''2024-01-03''
     (fst (record_attendance 9223372036854775808 ''2024-01-03'' ''Absent''
        (fst (record_attendance 9223372036854775808 ''2024-01-03'' ''Present''
           (init_db empty_db)))))
   = []"
  by (simp add: record_attendance_def init_db_def empty_db_def records_for_def
      attendance_rows_def sqlite_int_ok_def status_check_def next_rowid_def Let_def)

section \<open>Properties of the queries\<close>

text \<open>
  With pairwise different participant identifiers, the join finds for an attendance
  record at most one participant, the one \<open>name_of\<close> gives.
\<close>

lemma names_of_id:
  "distinct (map p_id ps) \<Longrightarrow>
   map p_name (filter (\<lambda>p. k = int (p_id p)) ps) =
   (case map_of (map (\<lambda>p. (int (p_id p), p_name p)) ps) k of None \<Rightarrow> [] | Some n \<Rightarrow> [n])"
proof (induction ps)
  case Nil
  then show ?case by simp
next
  case (Cons p ps)
  show ?case
  proof (cases "k = int (p_id p)")
    case True
    from Cons.prems have "p_id p \<notin> p_id ` set ps" by simp
    then have "\<forall>q\<in>set ps. k \<noteq> int (p_id q)" using True by (metis imageI of_nat_eq_iff)
    then have "filter (\<lambda>q. k = int (p_id q)) ps = []" by (simp add: filter_empty_conv)
    with True show ?thesis by simp
  next
    case False
    with Cons show ?thesis by simp
  qed
qed

lemma join_rows_of_record:
  assumes "distinct (map p_id ps)"
  shows "map (join_row ar) (filter (\<lambda>p. ar_participant_id ar = int (p_id p)) ps) =
   (case map_of (map (\<lambda>p. (int (p_id p), p_name p)) ps) (ar_participant_id ar) of
      None \<Rightarrow> []
    | Some n \<Rightarrow> [\<lparr>participant_name = n, status = ar_status ar, session_date = ar_session_date ar\<rparr>])"
proof -
  let ?mk = "\<lambda>n. \<lparr>participant_name = n, status = ar_status ar, session_date = ar_session_date ar\<rparr>"
  have "join_row ar = ?mk \<circ> p_name" by (simp add: join_row_def fun_eq_iff)
  then have "map (join_row ar) (filter (\<lambda>p. ar_participant_id ar = int (p_id p)) ps) =
     map ?mk (map p_name (filter (\<lambda>p. ar_participant_id ar = int (p_id p)) ps))"
    by simp
  also have "\<dots> = map ?mk (case map_of (map (\<lambda>p. (int (p_id p), p_name p)) ps) (ar_participant_id ar) of None \<Rightarrow> [] | Some n \<Rightarrow> [n])"
    using names_of_id [OF assms] by simp
  finally show ?thesis by (simp split: option.splits)
qed

lemma join_is_spec:
  assumes "distinct (map p_id ps)" "participants s = Some ps"
  shows "concat (map (\<lambda>ar. map (join_row ar)
                                      (filter (\<lambda>p. ar_participant_id ar = int (p_id p)) ps))
                            (filter (\<lambda>ar. ar_session_date ar = d) ars)) =
     List.map_filter
       (\<lambda>r. if ar_session_date r = d
            then map_option
                   (\<lambda>n. \<lparr>participant_name = n, status = ar_status r,
                         session_date = ar_session_date r\<rparr>)
                   (name_of s (ar_participant_id r))
            else None) ars"
proof (induction ars)
  case Nil
  then show ?case by simp
next
  case (Cons a ars)
  have n: "name_of s k = map_of (map (\<lambda>p. (int (p_id p), p_name p)) ps) k" for k
    using assms(2) by (simp add: name_of_def participant_rows_def)
  show ?case
    using Cons join_rows_of_record [OF assms(1), of a]
    by (simp add: n split: option.splits)
qed

text \<open>
  Claim C3. For every store and every date, \<^verbatim>\<open>get_attendance_for_session\<close> returns its
  rows sorted by participant name. On a store whose participant identifiers are pairwise
  different (the primary key) the rows are, up to order, exactly the attendance records
  of the date whose \<^verbatim>\<open>participant_id\<close> is the identifier of a participant, each with
  that participant's name, its own status and date. For a date without attendance record
  the result is empty, whatever participants and records of other dates exist.
\<close>

theorem get_attendance_for_session_correct:
  "sorted (map participant_name (get_attendance_for_session d s)) \<and>
   (distinct (map p_id (participant_rows s)) \<longrightarrow>
      mset (get_attendance_for_session d s) = mset (for_session_spec d s)) \<and>
   ((\<forall>r\<in>set (attendance_rows s). ar_session_date r \<noteq> d) \<longrightarrow>
      get_attendance_for_session d s = [])"
proof -
  have a: "sorted (map participant_name (get_attendance_for_session d s))"
    by (simp add: get_attendance_for_session_def split: option.splits)
  have b: "mset (get_attendance_for_session d s) = mset (for_session_spec d s)"
    if dist: "distinct (map p_id (participant_rows s))"
  proof (cases "attendance_records s")
    case None
    then show ?thesis
      by (simp add: get_attendance_for_session_def for_session_spec_def attendance_rows_def)
  next
    case ars: (Some ars)
    show ?thesis
    proof (cases "participants s")
      case None
      then have "name_of s k = None" for k by (simp add: name_of_def participant_rows_def)
      then have "for_session_spec d s = []"
        by (simp add: for_session_spec_def List.map_filter_def)
      with None ars show ?thesis by (simp add: get_attendance_for_session_def)
    next
      case (Some ps)
      with dist have "distinct (map p_id ps)" by (simp add: participant_rows_def)
      from join_is_spec [OF this Some, of d ars] ars Some show ?thesis
        by (simp add: get_attendance_for_session_def for_session_spec_def attendance_rows_def)
    qed
  qed
  have c: "get_attendance_for_session d s = []"
    if "\<forall>r\<in>set (attendance_rows s). ar_session_date r \<noteq> d"
  proof -
    from that have "filter (\<lambda>ar. ar_session_date ar = d) (attendance_rows s) = []"
      by (simp add: filter_empty_conv)
    then show ?thesis
      by (simp add: get_attendance_for_session_def attendance_rows_def split: option.splits)
  qed
  from a b c show ?thesis by blast
qed


theorem get_attendance_for_session_correct_witness:
  "distinct (map p_id (participant_rows sample_db)) \<and>
   get_attendance_for_session ''2024-01-03'' sample_db =
     [\<lparr>participant_name = ''Alice'', status = ''Absent'', session_date = ''2024-01-03''\<rparr>,
      \<lparr>participant_name = ''Bob'', status = ''Present'', session_date = ''2024-01-03''\<rparr>] \<and>
   mset (get_attendance_for_session ''2024-01-03'' sample_db) =
     mset (for_session_spec ''2024-01-03'' sample_db) \<and>
   ''2024-02-01'' \<notin> set (map ar_session_date (attendance_rows sample_db)) \<and>
   get_attendance_for_session ''2024-02-01'' sample_db = []"
proof -
  have d: "distinct (map p_id (participant_rows sample_db))"
    by (simp add: participant_rows_def sample_db_def)
  have e: "get_attendance_for_session ''2024-01-03'' sample_db =
     [\<lparr>participant_name = ''Alice'', status = ''Absent'', session_date = ''2024-01-03''\<rparr>,
      \<lparr>participant_name = ''Bob'', status = ''Present'', session_date = ''2024-01-03''\<rparr>]"
    by (simp add: get_attendance_for_session_def sample_db_def join_row_def)
  have n: "\<forall>r\<in>set (attendance_rows sample_db). ar_session_date r \<noteq> ''2024-02-01''"
    by (simp add: attendance_rows_def sample_db_def)
  have m: "''2024-02-01'' \<notin> set (map ar_session_date (attendance_rows sample_db))"
    by (simp add: attendance_rows_def sample_db_def)
  show ?thesis
    using d e n m get_attendance_for_session_correct [of "''2024-01-03''" sample_db]
      get_attendance_for_session_correct [of "''2024-02-01''" sample_db]
    by simp
qed

text \<open>
  Adding participants with new, pairwise different names appends one row for each, with
  the identifier the call returned.
\<close>

lemma add_all_rows:
  "participants s = Some ps \<Longrightarrow> distinct (map fst nes) \<Longrightarrow>
   set (map fst nes) \<inter> set (map p_name ps) = {} \<Longrightarrow>
   \<exists>ids. snd (add_all nes s) = map Some ids \<and> length ids = length nes \<and>
         participants (fst (add_all nes s)) = Some (ps @ map2 new_participant ids nes)"
proof (induction nes arbitrary: s ps)
  case Nil
  then show ?case by simp
next
  case (Cons ne nes)
  obtain nm em where ne: "ne = (nm, em)" by (cases ne)
  from Cons.prems ne have fresh: "nm \<notin> set (map p_name ps)" by auto
  define i where "i = next_rowid (participants_seq s) (map p_id ps)"
  define s1 where "s1 = fst (add_participant nm em s)"
  have ap: "add_participant nm em s = (s1, Some i)"
    and p1: "participants s1 = Some (ps @ [new_participant i ne])"
    using Cons.prems(1) fresh
    by (simp_all add: s1_def i_def add_participant_def Let_def new_participant_def ne)
  from Cons.prems ne
  have "distinct (map fst nes)"
    "set (map fst nes) \<inter> set (map p_name (ps @ [new_participant i ne])) = {}"
    by (auto simp add: new_participant_def)
  from Cons.IH [OF p1 this]
  obtain ids where ids: "snd (add_all nes s1) = map Some ids" "length ids = length nes"
    "participants (fst (add_all nes s1)) =
       Some ((ps @ [new_participant i ne]) @ map2 new_participant ids nes)"
    by blast
  have "snd (add_all (ne # nes) s) = map Some (i # ids)"
    "length (i # ids) = length (ne # nes)"
    "participants (fst (add_all (ne # nes) s)) =
       Some (ps @ map2 new_participant (i # ids) (ne # nes))"
    using ids ap by (simp_all add: ne case_prod_beta)
  then show ?case by blast
qed

text \<open>
  Claim C4. \<^verbatim>\<open>get_all_participants\<close> returns the empty list on an empty store (before
  and after \<^verbatim>\<open>init_db\<close>). After adding participants with pairwise different names to
  an initialized empty store, every call returned an identifier, and the list has as many
  entries as participants were added, is sorted by name, and holds exactly the rows made
  of the returned identifier, the name and the email of each added participant.
\<close>

theorem get_all_participants_lists_added:
  "get_all_participants empty_db = [] \<and> get_all_participants (init_db empty_db) = [] \<and>
   (distinct (map fst nes) \<longrightarrow>
      length (get_all_participants (fst (add_all nes (init_db empty_db)))) = length nes \<and>
      sorted (map p_name (get_all_participants (fst (add_all nes (init_db empty_db))))) \<and>
      (\<exists>ids. snd (add_all nes (init_db empty_db)) = map Some ids \<and>
             length ids = length nes \<and>
             mset (get_all_participants (fst (add_all nes (init_db empty_db)))) =
               mset (map2 new_participant ids nes)))"
proof -
  have e: "get_all_participants empty_db = []" "get_all_participants (init_db empty_db) = []"
    by (simp_all add: get_all_participants_def init_db_def empty_db_def)
  have srt: "sorted (map p_name (get_all_participants t))" for t
    by (simp add: get_all_participants_def split: option.splits)
  have main: "length (get_all_participants (fst (add_all nes (init_db empty_db)))) = length nes \<and>
      (\<exists>ids. snd (add_all nes (init_db empty_db)) = map Some ids \<and>
             length ids = length nes \<and>
             mset (get_all_participants (fst (add_all nes (init_db empty_db)))) =
               mset (map2 new_participant ids nes))"
    if dist: "distinct (map fst nes)"
  proof -
    have p0: "participants (init_db empty_db) = Some []"
      by (simp add: init_db_def empty_db_def)
    from add_all_rows [OF p0 dist]
    obtain ids where ids: "snd (add_all nes (init_db empty_db)) = map Some ids"
      "length ids = length nes"
      "participants (fst (add_all nes (init_db empty_db))) = Some ([] @ map2 new_participant ids nes)"
      by auto
    from ids(3) have g: "get_all_participants (fst (add_all nes (init_db empty_db))) =
        sort_key p_name (map2 new_participant ids nes)"
      by (simp add: get_all_participants_def)
    have "length (get_all_participants (fst (add_all nes (init_db empty_db)))) = length nes"
      using ids(2) by (simp add: g)
    moreover have "mset (get_all_participants (fst (add_all nes (init_db empty_db)))) =
               mset (map2 new_participant ids nes)"
      by (simp add: g)
    ultimately show ?thesis using ids(1,2) by blast
  qed
  from e srt main show ?thesis by blast
qed

theorem get_all_participants_lists_added_witness:
  "distinct (map fst [(''Daisy Duck'', None), (''Charlie Brown'', Some ''cb@example.com'')]) \<and>
   get_all_participants
     (fst (add_all [(''Daisy Duck'', None), (''Charlie Brown'', Some ''cb@example.com'')]
        (init_db empty_db))) =
   [\<lparr>p_id = 2, p_name = ''Charlie Brown'', p_email = Some ''cb@example.com''\<rparr>,
    \<lparr>p_id = 1, p_name = ''Daisy Duck'', p_email = None\<rparr>] \<and>
   snd (add_all [(''Daisy Duck'', None), (''Charlie Brown'', Some ''cb@example.com'')]
        (init_db empty_db)) = [Some 1, Some 2]"
proof -
  have a: "add_all [(''Daisy Duck'', None), (''Charlie Brown'', Some ''cb@example.com'')]
        (init_db empty_db) =
     (\<lparr>participants = Some [\<lparr>p_id = 1, p_name = ''Daisy Duck'', p_email = None\<rparr>,
          \<lparr>p_id = 2, p_name = ''Charlie Brown'', p_email = Some ''cb@example.com''\<rparr>],
       participants_seq = 2, attendance_records = Some [], attendance_records_seq = 0\<rparr>,
      [Some 1, Some 2])"
    by (simp add: add_participant_def init_db_def empty_db_def next_rowid_def Let_def)
  show ?thesis
    using get_all_participants_lists_added
      [of "[(''Daisy Duck'', None), (''Charlie Brown'', Some ''cb@example.com'')]"]
    unfolding a by (simp add: get_all_participants_def)
qed

section \<open>Submitting the marking form\<close>

text \<open>
  The pieces of a key that starts with \<^verbatim>\<open>status_\<close>: there are at least two, so
  \<^verbatim>\<open>key.split('_')[1]\<close> never raises.
\<close>

lemma split_char_nonempty: "split_char c x \<noteq> []"
  by (induction x) (auto split: list.splits)

lemma split_char_status:
  assumes "startswith key ''status_''"
  shows "\<exists>piece rest. split_char CHR ''_'' key = ''status'' # piece # rest"
proof -
  from assms have "key = ''status_'' @ drop (length ''status_'') key"
    unfolding startswith_def by (metis append_take_drop_id)
  then obtain k' where k: "key = ''status_'' @ k'" ..
  obtain piece rest where "split_char CHR ''_'' k' = piece # rest"
    using split_char_nonempty [of "CHR ''_''" k'] by (cases "split_char CHR ''_'' k'") auto
  then have "split_char CHR ''_'' key = ''status'' # piece # rest"
    by (simp add: k)
  then show ?thesis by blast
qed

text \<open>
  A new rowid is not among the rowids of the table.
\<close>

lemma fold_max_ge: "sq \<le> fold max ids (sq::nat)"
proof (induction ids arbitrary: sq)
  case Nil
  then show ?case by simp
next
  case (Cons a ids)
  have "sq \<le> max a sq" by simp
  also have "\<dots> \<le> fold max ids (max a sq)" by (rule Cons.IH)
  finally show ?case by simp
qed

lemma fold_max_mem: "i \<in> set ids \<Longrightarrow> i \<le> fold max ids (sq::nat)"
proof (induction ids arbitrary: sq)
  case Nil
  then show ?case by simp
next
  case (Cons a ids)
  show ?case
  proof (cases "i = a")
    case True
    have "i \<le> max a sq" using True by simp
    also have "\<dots> \<le> fold max ids (max a sq)" by (rule fold_max_ge)
    finally show ?thesis by simp
  next
    case False
    with Cons.prems have "i \<in> set ids" by simp
    then show ?thesis using Cons.IH by simp
  qed
qed

lemma next_rowid_fresh: "next_rowid sq ids \<notin> set ids"
proof
  assume "next_rowid sq ids \<in> set ids"
  then have "next_rowid sq ids \<le> fold max ids sq" by (rule fold_max_mem)
  then show False by (simp add: next_rowid_def)
qed

text \<open>
  What \<^verbatim>\<open>record_attendance\<close> does to the rows: the \<^verbatim>\<open>UPDATE\<close> changes neither
  keys nor identifiers, and with pairwise different identifiers no record of another date
  is touched.
\<close>

lemma update_status_keys:
  "map pair_key (map (\<lambda>r. if ar_id r = i then r\<lparr>ar_status := st\<rparr> else r) ars) =
   map pair_key ars"
  by (induction ars) (auto simp add: pair_key_def)

lemma update_status_ids:
  "map ar_id (map (\<lambda>r. if ar_id r = i then r\<lparr>ar_status := st\<rparr> else r) ars) = map ar_id ars"
  by (induction ars) auto

lemma record_attendance_rows:
  "attendance_rows (fst (record_attendance pid d st s)) =
     (if sqlite_int_ok pid \<and> status_check st then
        (case attendance_records s of
           None \<Rightarrow> []
         | Some ars \<Rightarrow>
             (case find (\<lambda>r. ar_participant_id r = pid \<and> ar_session_date r = d) ars of
                Some rec \<Rightarrow> map (\<lambda>r. if ar_id r = ar_id rec then r\<lparr>ar_status := st\<rparr> else r) ars
              | None \<Rightarrow>
                  ars @ [\<lparr>ar_id = next_rowid (attendance_records_seq s) (map ar_id ars),
                          ar_participant_id = pid, ar_session_date = d, ar_status = st\<rparr>]))
      else attendance_rows s)"
  by (simp add: record_attendance_def attendance_rows_def Let_def split: option.splits)

lemma record_attendance_other_dates:
  assumes "distinct (map ar_id (attendance_rows s))"
  shows "filter (\<lambda>r. ar_session_date r \<noteq> d) (attendance_rows (fst (record_attendance pid d st s))) =
         filter (\<lambda>r. ar_session_date r \<noteq> d) (attendance_rows s) \<and>
         distinct (map ar_id (attendance_rows (fst (record_attendance pid d st s))))"
proof (cases "sqlite_int_ok pid \<and> status_check st")
  case False
  then show ?thesis using assms by (auto simp add: record_attendance_rows)
next
  case ok: True
  show ?thesis
  proof (cases "attendance_records s")
    case None
    then have "attendance_rows s = []" by (simp add: attendance_rows_def)
    with ok None show ?thesis by (simp add: record_attendance_rows)
  next
    case ars: (Some ars)
    from assms ars have dist: "distinct (map ar_id ars)" by (simp add: attendance_rows_def)
    from ars have rows: "attendance_rows s = ars" by (simp add: attendance_rows_def)
    let ?P = "\<lambda>r. ar_participant_id r = pid \<and> ar_session_date r = d"
    show ?thesis
    proof (cases "find ?P ars")
      case None
      have "next_rowid (attendance_records_seq s) (map ar_id ars) \<notin> set (map ar_id ars)"
        by (rule next_rowid_fresh)
      with None ars ok dist rows show ?thesis
        by (simp add: record_attendance_rows)
    next
      case (Some rec)
      then have rec: "rec \<in> set ars" "ar_session_date rec = d"
        using find_Some_mem [of ?P ars rec] by auto
      let ?u = "\<lambda>r. if ar_id r = ar_id rec then r\<lparr>ar_status := st\<rparr> else r"
      have rows': "attendance_rows (fst (record_attendance pid d st s)) = map ?u ars"
        using ok ars Some by (simp add: record_attendance_rows)
      have same: "?u r = r" if "r \<in> set ars" "ar_session_date r \<noteq> d" for r
      proof -
        from that rec have "r \<noteq> rec" by auto
        with dist that(1) rec(1) have "ar_id r \<noteq> ar_id rec"
          by (meson distinct_map inj_onD)
        then show ?thesis by simp
      qed
      have "filter (\<lambda>r. ar_session_date r \<noteq> d) (map ?u ars) =
            map ?u (filter (\<lambda>r. ar_session_date r \<noteq> d) ars)"
        by (induction ars) auto
      also have "\<dots> = filter (\<lambda>r. ar_session_date r \<noteq> d) ars"
        using same by (intro map_idI) auto
      finally have f: "filter (\<lambda>r. ar_session_date r \<noteq> d) (map ?u ars) =
          filter (\<lambda>r. ar_session_date r \<noteq> d) ars" .
      have "distinct (map ar_id (map ?u ars))"
        unfolding update_status_ids by (rule dist)
      with f show ?thesis unfolding rows' rows by blast
    qed
  qed
qed

lemma record_attendance_keys_mono:
  "set (map pair_key (attendance_rows s)) \<subseteq>
   set (map pair_key (attendance_rows (fst (record_attendance pid d st s))))"
proof (cases "sqlite_int_ok pid \<and> status_check st")
  case False
  then show ?thesis by (auto simp add: record_attendance_rows)
next
  case ok: True
  show ?thesis
  proof (cases "attendance_records s")
    case None
    then show ?thesis by (simp add: attendance_rows_def)
  next
    case ars: (Some ars)
    from ars have rows: "attendance_rows s = ars" by (simp add: attendance_rows_def)
    let ?P = "\<lambda>r. ar_participant_id r = pid \<and> ar_session_date r = d"
    show ?thesis
    proof (cases "find ?P ars")
      case None
      with ok ars rows show ?thesis by (auto simp add: record_attendance_rows)
    next
      case (Some rec)
      let ?u = "\<lambda>r. if ar_id r = ar_id rec then r\<lparr>ar_status := st\<rparr> else r"
      have rows': "attendance_rows (fst (record_attendance pid d st s)) = map ?u ars"
        using ok ars Some by (simp add: record_attendance_rows)
      show ?thesis unfolding rows' rows update_status_keys by (rule subset_refl)
    qed
  qed
qed

lemma record_attendance_key_present:
  assumes "attendance_records s \<noteq> None" "sqlite_int_ok pid" "status_check st"
  shows "(pid, d) \<in> set (map pair_key (attendance_rows (fst (record_attendance pid d st s))))"
proof -
  from assms(1) obtain ars where ars: "attendance_records s = Some ars" by auto
  let ?P = "\<lambda>r. ar_participant_id r = pid \<and> ar_session_date r = d"
  show ?thesis
  proof (cases "find ?P ars")
    case None
    with ars assms(2,3) show ?thesis
      by (simp add: record_attendance_rows pair_key_def)
  next
    case (Some rec)
    then have "rec \<in> set ars" "pair_key rec = (pid, d)"
      using find_Some_mem [of ?P ars rec] by (auto simp add: pair_key_def)
    then have "(pid, d) \<in> set (map pair_key (attendance_rows s))"
      using ars by (force simp add: attendance_rows_def)
    then show ?thesis using record_attendance_keys_mono by blast
  qed
qed


text \<open>
  The same facts for one submitted field and for the loop over all of them.
\<close>

lemma mark_field_cases:
  "mark_field to_int d kv s = s \<or>
   (\<exists>n. mark_field to_int d kv s = fst (record_attendance n d (snd kv) s))"
  by (cases kv) (auto simp add: mark_field_def split: list.splits option.splits)

lemma mark_field_other_dates:
  assumes "distinct (map ar_id (attendance_rows s))"
  shows "filter (\<lambda>r. ar_session_date r \<noteq> d) (attendance_rows (mark_field to_int d kv s)) =
         filter (\<lambda>r. ar_session_date r \<noteq> d) (attendance_rows s) \<and>
         distinct (map ar_id (attendance_rows (mark_field to_int d kv s)))"
  using mark_field_cases [of to_int d kv s] record_attendance_other_dates [OF assms, of d] assms
  by auto

lemma mark_field_keys_mono:
  "set (map pair_key (attendance_rows s)) \<subseteq>
   set (map pair_key (attendance_rows (mark_field to_int d kv s)))"
proof -
  from mark_field_cases [of to_int d kv s]
  consider "mark_field to_int d kv s = s"
    | n where "mark_field to_int d kv s = fst (record_attendance n d (snd kv) s)"
    by blast
  then show ?thesis
  proof cases
    case 1
    then show ?thesis by simp
  next
    case 2
    show ?thesis unfolding 2 by (rule record_attendance_keys_mono)
  qed
qed

lemma mark_field_table:
  "attendance_records s \<noteq> None \<Longrightarrow> attendance_records (mark_field to_int d kv s) \<noteq> None"
  using mark_field_cases [of to_int d kv s] record_attendance_table [of s _ d "snd kv"]
  by metis

lemma fold_mark_field_other_dates:
  "distinct (map ar_id (attendance_rows s)) \<Longrightarrow>
   filter (\<lambda>r. ar_session_date r \<noteq> d) (attendance_rows (fold (mark_field to_int d) kvs s)) =
   filter (\<lambda>r. ar_session_date r \<noteq> d) (attendance_rows s)"
proof (induction kvs arbitrary: s)
  case Nil
  then show ?case by simp
next
  case (Cons kv kvs)
  from mark_field_other_dates [OF Cons.prems, of d to_int kv]
  have a: "filter (\<lambda>r. ar_session_date r \<noteq> d) (attendance_rows (mark_field to_int d kv s)) =
         filter (\<lambda>r. ar_session_date r \<noteq> d) (attendance_rows s)"
    and b: "distinct (map ar_id (attendance_rows (mark_field to_int d kv s)))"
    by simp_all
  from Cons.IH [OF b] a show ?case by simp
qed

lemma fold_mark_field_keys_mono:
  "set (map pair_key (attendance_rows s)) \<subseteq>
   set (map pair_key (attendance_rows (fold (mark_field to_int d) kvs s)))"
proof (induction kvs arbitrary: s)
  case Nil
  then show ?case by simp
next
  case (Cons kv kvs)
  have "set (map pair_key (attendance_rows s)) \<subseteq>
        set (map pair_key (attendance_rows (mark_field to_int d kv s)))"
    by (rule mark_field_keys_mono)
  also have "\<dots> \<subseteq> set (map pair_key
      (attendance_rows (fold (mark_field to_int d) kvs (mark_field to_int d kv s))))"
    by (rule Cons.IH)
  finally show ?case by simp
qed

lemma fold_mark_field_table:
  "attendance_records s \<noteq> None \<Longrightarrow>
   attendance_records (fold (mark_field to_int d) kvs s) \<noteq> None"
proof (induction kvs arbitrary: s)
  case Nil
  then show ?case by simp
next
  case (Cons kv kvs)
  from Cons.prems have "attendance_records (mark_field to_int d kv s) \<noteq> None"
    by (rule mark_field_table)
  then have "attendance_records (fold (mark_field to_int d) kvs (mark_field to_int d kv s)) \<noteq> None"
    by (rule Cons.IH)
  then show ?case by simp
qed

lemma mark_field_key_present:
  assumes "attendance_records s \<noteq> None" "startswith key ''status_''"
    and "split_char CHR ''_'' key = a # piece # rest" "to_int piece = Some n"
    and "sqlite_int_ok n" "status_check v"
  shows "(n, d) \<in> set (map pair_key (attendance_rows (mark_field to_int d (key, v) s)))"
proof -
  from assms(2-4) have "mark_field to_int d (key, v) s = fst (record_attendance n d v s)"
    by (simp add: mark_field_def)
  with record_attendance_key_present [OF assms(1,5,6), of d] show ?thesis by simp
qed

lemma fold_mark_field_key_present:
  assumes "(key, v) \<in> set kvs" "attendance_records s \<noteq> None" "startswith key ''status_''"
    and "split_char CHR ''_'' key = a # piece # rest" "to_int piece = Some n"
    and "sqlite_int_ok n" "status_check v"
  shows "(n, d) \<in> set (map pair_key (attendance_rows (fold (mark_field to_int d) kvs s)))"
proof -
  from assms(1) obtain xs ys where kvs: "kvs = xs @ (key, v) # ys"
    by (meson split_list)
  let ?s1 = "fold (mark_field to_int d) xs s"
  have "attendance_records ?s1 \<noteq> None" using assms(2) by (rule fold_mark_field_table)
  from mark_field_key_present [where to_int = to_int, OF this assms(3-7), of d]
  have "(n, d) \<in> set (map pair_key (attendance_rows (mark_field to_int d (key, v) ?s1)))" .
  then have "(n, d) \<in> set (map pair_key
      (attendance_rows (fold (mark_field to_int d) ys (mark_field to_int d (key, v) ?s1))))"
    using fold_mark_field_keys_mono by blast
  then show ?thesis by (simp add: kvs)
qed

text \<open>
  Claim C9. A POST to \<^verbatim>\<open>/attendance\<close> in a session that holds a date, with a non-empty
  \<^verbatim>\<open>session_date\<close> in the form, records attendance under the date of the form, equal
  to the date of the session or not: the answer is the redirect to the view page for the
  form's date; the session is not modified; on a store whose record identifiers are
  pairwise different (the primary key) the records of every other date, the session's
  date included when it differs, stay as they were; and for every submitted field
  \<^verbatim>\<open>status_<n>\<close> whose identifier \<open>to_int\<close> reads, fits 64 bits, and whose value is
  \<^verbatim>\<open>Present\<close> or \<^verbatim>\<open>Absent\<close>, the store (with an attendance table) holds afterwards a
  record for participant \<open>n\<close> on the form's date.
\<close>

theorem mark_attendance_page_post:
  assumes "req_method req = POST" and "truthy (st_session st)"
    and "form_get ''session_date'' (req_form req) = Some d" and "d \<noteq> []"
  shows "fst (mark_attendance_page to_int req st) = Redirect (View_attendance_page d) \<and>
         st_session (snd (mark_attendance_page to_int req st)) = st_session st \<and>
         (distinct (map ar_id (attendance_rows (st_db st))) \<longrightarrow>
            filter (\<lambda>r. ar_session_date r \<noteq> d)
              (attendance_rows (st_db (snd (mark_attendance_page to_int req st)))) =
            filter (\<lambda>r. ar_session_date r \<noteq> d) (attendance_rows (st_db st))) \<and>
         ((key, v) \<in> set (form_items (req_form req)) \<and> startswith key ''status_'' \<and>
          split_char CHR ''_'' key = a # piece # rest \<and> to_int piece = Some n \<and>
          sqlite_int_ok n \<and> status_check v \<and> attendance_records (st_db st) \<noteq> None \<longrightarrow>
            (n, d) \<in> set (map pair_key
               (attendance_rows (st_db (snd (mark_attendance_page to_int req st))))))"
proof -
  from assms(2) obtain sd where sd: "st_session st = Some sd" "sd \<noteq> []"
    by (auto simp add: truthy_def split: option.splits)
  have page: "mark_attendance_page to_int req st =
      (Redirect (View_attendance_page d),
       st\<lparr>st_db := fold (mark_field to_int d) (form_items (req_form req)) (st_db st)\<rparr>)"
    using assms(1,3,4) sd by (simp add: mark_attendance_page_def)
  have c: "filter (\<lambda>r. ar_session_date r \<noteq> d)
        (attendance_rows (fold (mark_field to_int d) (form_items (req_form req)) (st_db st))) =
      filter (\<lambda>r. ar_session_date r \<noteq> d) (attendance_rows (st_db st))"
    if "distinct (map ar_id (attendance_rows (st_db st)))"
    using that by (rule fold_mark_field_other_dates)
  have e: "(n, d) \<in> set (map pair_key
        (attendance_rows (fold (mark_field to_int d) (form_items (req_form req)) (st_db st))))"
    if "(key, v) \<in> set (form_items (req_form req)) \<and> startswith key ''status_'' \<and>
          split_char CHR ''_'' key = a # piece # rest \<and> to_int piece = Some n \<and>
          sqlite_int_ok n \<and> status_check v \<and> attendance_records (st_db st) \<noteq> None"
    using that fold_mark_field_key_present [of key v "form_items (req_form req)" "st_db st"
        a piece rest to_int n d]
    by blast
  from c e show ?thesis by (simp add: page)
qed

theorem mark_attendance_page_post_witness:
  "truthy (Some ''2024-01-03'') \<and>
   form_get ''session_date'' (req_form sample_post) = Some ''2024-02-02'' \<and>
   distinct (map ar_id (attendance_rows sample_db)) \<and>
   (''status_2'', ''Absent'') \<in> set (form_items (req_form sample_post)) \<and>
   startswith ''status_2'' ''status_'' \<and>
   split_char CHR ''_'' ''status_2'' = [''status'', ''2''] \<and>
   decimal ''2'' = Some 2 \<and> sqlite_int_ok 2 \<and> status_check ''Absent'' \<and>
   fst (mark_attendance_page decimal sample_post
          \<lparr>st_db = sample_db, st_session = Some ''2024-01-03''\<rparr>) =
     Redirect (View_attendance_page ''2024-02-02'') \<and>
   st_session (snd (mark_attendance_page decimal sample_post
          \<lparr>st_db = sample_db, st_session = Some ''2024-01-03''\<rparr>)) = Some ''2024-01-03'' \<and>
   attendance_rows (st_db (snd (mark_attendance_page decimal sample_post
          \<lparr>st_db = sample_db, st_session = Some ''2024-01-03''\<rparr>))) =
     attendance_rows sample_db @
     [\<lparr>ar_id = 5, ar_participant_id = 1, ar_session_date = ''2024-02-02'',
       ar_status = ''Present''\<rparr>,
      \<lparr>ar_id = 6, ar_participant_id = 2, ar_session_date = ''2024-02-02'',
       ar_status = ''Absent''\<rparr>]"
proof -
  have h: "req_method sample_post = POST" "truthy (st_session \<lparr>st_db = sample_db, st_session = Some ''2024-01-03''\<rparr>)"
    "form_get ''session_date'' (req_form sample_post) = Some ''2024-02-02''" "''2024-02-02'' \<noteq> []"
    by (simp_all add: sample_post_def truthy_def form_get_def)
  have dec: "decimal ''1'' = Some 1" "decimal ''2'' = Some 2" "decimal ''x'' = None"
    by (simp_all add: decimal_def)
  have rows: "attendance_rows (st_db (snd (mark_attendance_page decimal sample_post
          \<lparr>st_db = sample_db, st_session = Some ''2024-01-03''\<rparr>))) =
     attendance_rows sample_db @
     [\<lparr>ar_id = 5, ar_participant_id = 1, ar_session_date = ''2024-02-02'',
       ar_status = ''Present''\<rparr>,
      \<lparr>ar_id = 6, ar_participant_id = 2, ar_session_date = ''2024-02-02'',
       ar_status = ''Absent''\<rparr>]"
    by (simp add: mark_attendance_page_def sample_post_def form_get_def mark_field_def
        startswith_def dec record_attendance_def sqlite_int_ok_def status_check_def sample_db_def
        next_rowid_def Let_def attendance_rows_def)
  have i: "(''status_2'', ''Absent'') \<in> set (form_items (req_form sample_post))"
    "startswith ''status_2'' ''status_''" "split_char CHR ''_'' ''status_2'' = [''status'', ''2'']"
    "sqlite_int_ok 2" "status_check ''Absent''"
    "distinct (map ar_id (attendance_rows sample_db))"
    by (simp_all add: sample_post_def startswith_def sqlite_int_ok_def status_check_def
        attendance_rows_def sample_db_def)
  show ?thesis
    using h(2,3) dec(2) rows i
      mark_attendance_page_post [OF h, of decimal "''status_2''" "''Absent''" "''status''" "''2''" "[]" 2]
    by simp
qed

end
